theory Spec2Isabelle
  imports Main "HOL-Library.AList" "HOL-Library.Char_ord" "HOL-Library.List_Lexorder"
begin

section \<open>Strings as the source uses them\<close>

text \<open>
  A Python \<open>str\<close> is a sequence of Unicode code points; the model keeps it as its UTF-8
  bytes, a \<open>string\<close>. Equality, concatenation, the substring test \<open>sub in s\<close>, the order
  that \<open>sorted\<close> uses and \<open>s.replace(old, new)\<close> with ASCII characters are the same on
  the code points and on the bytes.

  \<open>s.lower()\<close> is not: CPython lowers an ASCII string letter by letter (\<open>A\<close> to \<open>Z\<close>
  become \<open>a\<close> to \<open>z\<close>), and any other string through the Unicode character database,
  where the result of a letter may depend on its neighbours. The database is no part of
  the repository, so what \<open>str.lower\<close> returns on a string that is not ASCII is a
  parameter of the model, \<open>unicode_lower\<close>.
\<close>

definition is_ascii :: "string \<Rightarrow> bool" where
  "is_ascii s = list_all (\<lambda>c. (of_char c :: nat) < 128) s"

definition lower_char :: "char \<Rightarrow> char" where
  "lower_char c =
     (let n = (of_char c :: nat) in if 65 \<le> n \<and> n \<le> 90 then char_of (n + 32) else c)"

definition lower :: "(string \<Rightarrow> string) \<Rightarrow> string \<Rightarrow> string" where
  "lower unicode_lower s = (if is_ascii s then map lower_char s else unicode_lower s)"

fun starts_with :: "string \<Rightarrow> string \<Rightarrow> bool" where
  "starts_with s [] = True"
| "starts_with [] (p # ps) = False"
| "starts_with (c # cs) (p # ps) = (c = p \<and> starts_with cs ps)"

text \<open>\<open>str_in sub s\<close> is Python's \<open>sub in s\<close> on two strings.\<close>

fun str_in :: "string \<Rightarrow> string \<Rightarrow> bool" where
  "str_in sub [] = (sub = [])"
| "str_in sub (c # cs) = (starts_with (c # cs) sub \<or> str_in sub cs)"

definition replace_char :: "char \<Rightarrow> char \<Rightarrow> string \<Rightarrow> string" where
  "replace_char old new s = map (\<lambda>c. if c = old then new else c) s"

text \<open>\<open>sep.join(xs)\<close>.\<close>

fun join :: "string \<Rightarrow> string list \<Rightarrow> string" where
  "join sep [] = []"
| "join sep [x] = x"
| "join sep (x # y # ys) = x @ sep @ join sep (y # ys)"

text \<open>Truthiness of an optional string or list: \<open>None\<close> and the empty value are false.\<close>

fun truthy :: "'a list option \<Rightarrow> bool" where
  "truthy None = False"
| "truthy (Some xs) = (xs \<noteq> [])"

section \<open>Data model (models.py)\<close>

text \<open>
  Exceptions are values. \<open>Exception\<close> is what the source raises itself, \<open>AssertionError\<close>
  comes from its \<open>assert\<close>, and \<open>OtherException cls msg\<close> stands for whatever the browser
  or a scraper class raises. All of them are subclasses of Python's \<open>Exception\<close>, so an
  \<open>except Exception\<close> clause catches each.
\<close>

datatype pyexn = Exception string | AssertionError | OtherException string string

fun str_of_exn :: "pyexn \<Rightarrow> string" where
  "str_of_exn (Exception msg) = msg"
| "str_of_exn AssertionError = []"
| "str_of_exn (OtherException cls msg) = msg"

text \<open>
  A \<open>JobPosting\<close> as a scraper fills it in: \<open>title\<close> and \<open>id\<close> are strings and \<open>link\<close> may
  be \<open>None\<close>. (The dataclass defaults all three to \<open>None\<close>; a posting without a title
  makes \<open>title.lower()\<close> raise, and such postings are outside the model.)
\<close>

record JobPosting =
  title :: string
  link :: "string option"
  id' :: string

datatype JobsPageStatus =
  SPECIFIC_NO_JOBS_PHRASE_FOUND
| GENERIC_NO_JOBS_PHRASE_FOUND
| NO_JOBS_PHRASE_NOT_FOUND_BUT_NO_JOBS
| SOME_JOB_FOUND

text \<open>
  The browser session is a mutable object that every call may change, so the model
  threads its state \<open>'d\<close> through. A \<open>Browser\<close> says what the Selenium calls of the
  source do on that state: \<open>driver.get(url)\<close>, \<open>driver.execute_script(js)\<close>,
  \<open>driver.find_element(By.TAG_NAME, 'body').text\<close> and \<open>driver.close()\<close>. Each may raise;
  \<open>driver.get\<close> receives \<open>company.jobs_page\<close> as it is, \<open>None\<close> included.
\<close>

record 'd Browser =
  drv_get :: "string option \<Rightarrow> 'd \<Rightarrow> pyexn option \<times> 'd"
  drv_execute_script :: "string \<Rightarrow> 'd \<Rightarrow> pyexn option \<times> 'd"
  drv_body_text :: "'d \<Rightarrow> pyexn + string"
  drv_close :: "'d \<Rightarrow> pyexn option \<times> 'd"

text \<open>
  \<open>Company\<close> keeps the fields the scraping code reads; the descriptive fields
  (\<open>careers_landing_page\<close>, \<open>location\<close>, \<open>notes\<close>, \<open>tags\<close>, ...) are read nowhere and the two
  sleep durations only delay. \<open>jobs_page_class\<close> is the company's scraper: its
  \<open>get_jobs(driver)\<close> is the function stored in the field.
\<close>

record 'd Company =
  name :: string
  active :: bool
  jobs_page :: "string option"
  jobs_page_class :: "('d \<Rightarrow> (pyexn + JobPosting list) \<times> 'd) option"
  no_jobs_phrase :: "string option"
  relevant_search_terms :: "string list option"

section \<open>Relevance and "has jobs" detection (jobscrape.py)\<close>

definition title_is_relevant ::
  "(string \<Rightarrow> string) \<Rightarrow> 'd Company \<Rightarrow> string \<Rightarrow> string list \<Rightarrow> bool" where
  "title_is_relevant unicode_lower company ttl search_terms =
     (case relevant_search_terms company of
        Some (t # ts) \<Rightarrow>
          list_ex (\<lambda>search_term. str_in (lower unicode_lower search_term) (lower unicode_lower ttl)) (t # ts)
      | _ \<Rightarrow> list_ex (\<lambda>search_term. str_in (lower unicode_lower search_term) (lower unicode_lower ttl)) search_terms)"

definition generic_no_jobs_phrases :: "string list" where
  "generic_no_jobs_phrases =
     [''No available positions'', ''No positions'', ''Sorry'', ''No job'', ''No current'',
      ''No open'', ''None available'', ''Don'' @ [CHR 0x27] @ ''t have'',
      ''don'' @ [CHR 0x27] @ ''t currently'', ''No openings'']"

definition has_jobs ::
  "(string \<Rightarrow> string) \<Rightarrow> 'd Browser \<Rightarrow> 'd \<Rightarrow> 'd Company \<Rightarrow> pyexn + (bool \<times> JobsPageStatus)" where
  "has_jobs unicode_lower browser driver company =
     (case drv_body_text browser driver of
        Inl e \<Rightarrow> Inl e
      | Inr body_text \<Rightarrow>
          (let all_text_lower = lower unicode_lower body_text in
           if all_text_lower = [] then Inl (Exception (name company @ '': Error retrieving text''))
           else
             (case no_jobs_phrase company of
                Some (c # cs) \<Rightarrow>
                  (if str_in (lower unicode_lower (c # cs)) all_text_lower
                   then Inr (False, SPECIFIC_NO_JOBS_PHRASE_FOUND)
                   else Inr (True, NO_JOBS_PHRASE_NOT_FOUND_BUT_NO_JOBS))
              | _ \<Rightarrow>
                  (let has_jobs = list_all (\<lambda>phrase. \<not> str_in (lower unicode_lower phrase) all_text_lower)
                                    generic_no_jobs_phrases
                   in Inr (has_jobs, if has_jobs then NO_JOBS_PHRASE_NOT_FOUND_BUT_NO_JOBS
                                     else GENERIC_NO_JOBS_PHRASE_FOUND)))))"

text \<open>
  \<open>get_company_relevant_jobs\<close> loads the company's jobs page, scrolls to the bottom, and
  reads the postings through the company's scraper. The two \<open>time.sleep\<close> calls only
  delay and are left out. The result pairs what the call returns or raises with the
  browser state it leaves behind.
\<close>

definition get_company_relevant_jobs ::
  "(string \<Rightarrow> string) \<Rightarrow> 'd Browser \<Rightarrow> 'd \<Rightarrow> 'd Company \<Rightarrow> string list
     \<Rightarrow> (pyexn + (JobPosting list \<times> JobsPageStatus)) \<times> 'd" where
  "get_company_relevant_jobs unicode_lower browser driver company search_terms =
     (case drv_get browser (jobs_page company) driver of
        (Some e, d1) \<Rightarrow> (Inl e, d1)
      | (None, d1) \<Rightarrow>
          (case drv_execute_script browser
                  ''window.scrollTo(0, document.body.scrollHeight);'' d1 of
             (Some e, d2) \<Rightarrow> (Inl e, d2)
           | (None, d2) \<Rightarrow>
               (case has_jobs unicode_lower browser d2 company of
                  Inl e \<Rightarrow> (Inl e, d2)
                | Inr (company_has_jobs, jobs_page_status) \<Rightarrow>
                    if company_has_jobs then
                      (case jobs_page_class company of
                         Some get_jobs \<Rightarrow>
                           (case get_jobs d2 of
                              (Inl e, d3) \<Rightarrow> (Inl e, d3)
                            | (Inr jobs, d3) \<Rightarrow>
                                (Inr (filter (\<lambda>job. title_is_relevant unicode_lower company (title job) search_terms) jobs,
                                      if jobs \<noteq> [] then SOME_JOB_FOUND else jobs_page_status),
                                 d3))
                       | None \<Rightarrow> (Inl (Exception ''Scrape not implemented''), d2))
                    else (Inr ([], jobs_page_status), d2))))"

text \<open>
  The configuration module (\<open>config.py\<close>, fetched at run time) is a parameter: its
  companies, already built as \<open>Company\<close> objects, and its global search terms.
\<close>

record 'd Config =
  companies :: "'d Company list"
  search_terms :: "string list"

text \<open>
  \<open>limit_company and limit_company.lower() not in company.name.lower()\<close>: the guard that
  makes the loop of \<open>get_relevant_jobs\<close> pass over a company.
\<close>

fun not_in_limit :: "(string \<Rightarrow> string) \<Rightarrow> string option \<Rightarrow> 'd Company \<Rightarrow> bool" where
  "not_in_limit unicode_lower (Some (c # cs)) company =
     (\<not> str_in (lower unicode_lower (c # cs)) (lower unicode_lower (name company)))"
| "not_in_limit unicode_lower _ company = False"

text \<open>
  The four result lists of \<open>get_relevant_jobs\<close>, in the order the source returns them:
  \<open>relevant_jobs\<close>, \<open>skipped_companies\<close>, \<open>verify_no_jobs\<close>, \<open>errors\<close>.
\<close>

type_synonym 'd Scraped =
  "('d Company \<times> JobPosting) list \<times> string list \<times> 'd Company list \<times> (string \<times> pyexn) list"

text \<open>
  The \<open>for company in companies\<close> loop. The \<open>assert\<close> stands outside the \<open>try\<close>, so its
  \<open>AssertionError\<close> leaves the loop and the function; what \<open>get_company_relevant_jobs\<close>
  raises is caught by \<open>except Exception\<close> and the loop goes on.
\<close>

fun get_relevant_jobs_loop ::
  "(string \<Rightarrow> string) \<Rightarrow> 'd Browser \<Rightarrow> string option \<Rightarrow> string list \<Rightarrow> 'd Company list \<Rightarrow> 'd Scraped \<Rightarrow> 'd
     \<Rightarrow> (pyexn + 'd Scraped) \<times> 'd" where
  "get_relevant_jobs_loop unicode_lower browser limit_company terms [] acc driver = (Inr acc, driver)"
| "get_relevant_jobs_loop unicode_lower browser limit_company terms (company # rest)
       (relevant_jobs, skipped_companies, verify_no_jobs, errors) driver =
     (if not_in_limit unicode_lower limit_company company then
        get_relevant_jobs_loop unicode_lower browser limit_company terms rest
          (relevant_jobs, skipped_companies, verify_no_jobs, errors) driver
      else if active company then
        (if \<not> truthy (jobs_page company) then (Inl AssertionError, driver)
         else
           (case get_company_relevant_jobs unicode_lower browser driver company terms of
              (Inr (company_relevant_jobs, jobs_page_status), d1) \<Rightarrow>
                if company_relevant_jobs \<noteq> [] then
                  get_relevant_jobs_loop unicode_lower browser limit_company terms rest
                    (relevant_jobs @ map (Pair company) company_relevant_jobs,
                     skipped_companies, verify_no_jobs, errors) d1
                else if jobs_page_status \<in>
                          {GENERIC_NO_JOBS_PHRASE_FOUND, NO_JOBS_PHRASE_NOT_FOUND_BUT_NO_JOBS} then
                  get_relevant_jobs_loop unicode_lower browser limit_company terms rest
                    (relevant_jobs, skipped_companies, verify_no_jobs @ [company], errors) d1
                else
                  get_relevant_jobs_loop unicode_lower browser limit_company terms rest
                    (relevant_jobs, skipped_companies, verify_no_jobs, errors) d1
            | (Inl e, d1) \<Rightarrow>
                get_relevant_jobs_loop unicode_lower browser limit_company terms rest
                  (relevant_jobs, skipped_companies, verify_no_jobs, errors @ [(name company, e)]) d1))
      else
        get_relevant_jobs_loop unicode_lower browser limit_company terms rest
          (relevant_jobs, skipped_companies @ [name company], verify_no_jobs, errors) driver)"

text \<open>
  \<open>search_terms = config.search_terms\<close>, with \<open>additional_search_term\<close> appended when it
  is given and not empty. (The source appends to the list of the module itself; the
  model is of one run.)
\<close>

definition effective_search_terms :: "'d Config \<Rightarrow> string option \<Rightarrow> string list" where
  "effective_search_terms config additional_search_term =
     (case additional_search_term of
        Some (c # cs) \<Rightarrow> search_terms config @ [c # cs]
      | _ \<Rightarrow> search_terms config)"

definition get_relevant_jobs ::
  "(string \<Rightarrow> string) \<Rightarrow> 'd Browser \<Rightarrow> 'd \<Rightarrow> 'd Config \<Rightarrow> string option \<Rightarrow> string option
     \<Rightarrow> (pyexn + 'd Scraped) \<times> 'd" where
  "get_relevant_jobs unicode_lower browser driver config limit_company additional_search_term =
     (case get_relevant_jobs_loop unicode_lower browser limit_company
             (effective_search_terms config additional_search_term) (companies config)
             ([], [], [], []) driver of
        (Inl e, d1) \<Rightarrow> (Inl e, d1)
      | (Inr scraped, d1) \<Rightarrow>
          (case drv_close browser d1 of
             (Some e, d2) \<Rightarrow> (Inl e, d2)
           | (None, d2) \<Rightarrow> (Inr scraped, d2)))"

section \<open>Diff against the known job IDs (jobscrape.py)\<close>

text \<open>
  A Python \<open>dict\<close> keeps its keys in insertion order; it is modelled as an association
  list that \<open>map_of\<close> reads and \<open>AList.update\<close> writes (in place for a key that is
  there, at the end for a new one). \<open>existing_relevant_jobs\<close> is a
  \<open>defaultdict(set)\<close>: reading a missing key stores the empty set under it.
\<close>

definition defaultdict_get ::
  "(string \<times> string set) list \<Rightarrow> string \<Rightarrow> string set \<times> (string \<times> string set) list" where
  "defaultdict_get d k =
     (case map_of d k of
        Some v \<Rightarrow> (v, d)
      | None \<Rightarrow> ({}, AList.update k {} d))"

text \<open>
  An entry of \<open>new_relevant_jobs\<close> is the dict \<open>{"company": company, "jobs": [...]}\<close>,
  here the pair of the two values.
\<close>

type_synonym 'd NewJobs = "(string \<times> ('d Company \<times> JobPosting list)) list"

text \<open>The loop "Group jobs by company, and update existing".\<close>

fun group_new_jobs ::
  "('d Company \<times> JobPosting) list \<Rightarrow> 'd NewJobs \<Rightarrow> (string \<times> string set) list
     \<Rightarrow> 'd NewJobs \<times> (string \<times> string set) list" where
  "group_new_jobs [] new_relevant_jobs existing = (new_relevant_jobs, existing)"
| "group_new_jobs ((company, job) # rest) new_relevant_jobs existing =
     (case defaultdict_get existing (name company) of
        (seen, existing1) \<Rightarrow>
          if id' job \<notin> seen then
            group_new_jobs rest
              (case map_of new_relevant_jobs (name company) of
                 Some (first_company, jobs) \<Rightarrow>
                   AList.update (name company) (first_company, jobs @ [job]) new_relevant_jobs
               | None \<Rightarrow> AList.update (name company) (company, [job]) new_relevant_jobs)
              (AList.update (name company) (insert (id' job) seen) existing1)
          else group_new_jobs rest new_relevant_jobs existing1)"

definition get_new_relevant_jobs ::
  "(string \<Rightarrow> string) \<Rightarrow> 'd Browser \<Rightarrow> 'd \<Rightarrow> 'd Config \<Rightarrow> (string \<times> string list) list \<Rightarrow> string option
     \<Rightarrow> string option
     \<Rightarrow> (pyexn + ('d NewJobs \<times> (string \<times> string list) list \<times> 'd Company list
                   \<times> (string \<times> pyexn) list)) \<times> 'd" where
  "get_new_relevant_jobs unicode_lower browser driver config existing_relevant_jobs limit_company
       additional_search_term =
     (let existing = map (\<lambda>(key, val). (key, set val)) existing_relevant_jobs in
      case get_relevant_jobs unicode_lower browser driver config limit_company additional_search_term of
        (Inl e, d1) \<Rightarrow> (Inl e, d1)
      | (Inr (relevant_jobs, skipped_companies, verify_no_jobs, errors), d1) \<Rightarrow>
          (case group_new_jobs relevant_jobs [] existing of
             (new_relevant_jobs, existing1) \<Rightarrow>
               (Inr (new_relevant_jobs,
                     map (\<lambda>(key, val). (key, sorted_list_of_set val)) existing1,
                     verify_no_jobs, errors),
                d1)))"

definition format_new_jobs_message :: "'d NewJobs \<Rightarrow> string" where
  "format_new_jobs_message new_jobs =
     concat (map (\<lambda>(company_name, (company, jobs)).
       [CHR 0x0A] @ company_name @ '' ('' @
         (case jobs_page company of Some url \<Rightarrow> url | None \<Rightarrow> ''None'') @ ''):'' @ [CHR 0x0A] @
       concat (map (\<lambda>job.
         [CHR 0x09] @ '' '' @ replace_char (CHR 0x0A) (CHR '' '') (title job) @ '' '' @
           (case link job of Some (c # cs) \<Rightarrow> c # cs | _ \<Rightarrow> []) @ [CHR 0x0A]) jobs))
       new_jobs)"

section \<open>The handler (lambda_function.py)\<close>

text \<open>
  The two JSON files on S3 are modelled by their decoded values: the known-jobs file is a
  \<open>dict[str, list[str]]\<close> (the annotation of \<open>get_new_relevant_jobs\<close>) and the errors file
  a list of \<open>{"company_name", "message"}\<close> records (what the handler writes). The store maps
  bucket and key to a body, so two keys that coincide name one object. Reading a key that
  is not there, or a body of the other shape, raises. \<open>put\<close> and \<open>sns.publish\<close> are taken
  to succeed; the messages published are kept in order.
\<close>

record StoredError =
  company_name :: string
  message :: string

datatype S3Body = JobsJson "(string \<times> string list) list" | ErrorsJson "StoredError list"

record SnsMessage =
  TopicArn :: string
  Message :: string
  Subject :: string

record Aws =
  s3_objects :: "string \<times> string \<Rightarrow> S3Body option"
  sns_published :: "SnsMessage list"

definition s3_put :: "string \<times> string \<Rightarrow> S3Body \<Rightarrow> Aws \<Rightarrow> Aws" where
  "s3_put object_key content aws = aws\<lparr>s3_objects := (s3_objects aws)(object_key \<mapsto> content)\<rparr>"

definition sns_publish :: "SnsMessage \<Rightarrow> Aws \<Rightarrow> Aws" where
  "sns_publish msg aws = aws\<lparr>sns_published := sns_published aws @ [msg]\<rparr>"

definition read_jobs_json :: "Aws \<Rightarrow> string \<times> string \<Rightarrow> pyexn + (string \<times> string list) list" where
  "read_jobs_json aws object_key =
     (case s3_objects aws object_key of
        None \<Rightarrow> Inl (OtherException ''NoSuchKey'' (snd object_key))
      | Some (JobsJson content) \<Rightarrow> Inr content
      | Some (ErrorsJson content) \<Rightarrow> Inl (OtherException ''AttributeError'' ''items''))"

definition read_errors_json :: "Aws \<Rightarrow> string \<times> string \<Rightarrow> pyexn + StoredError list" where
  "read_errors_json aws object_key =
     (case s3_objects aws object_key of
        None \<Rightarrow> Inl (OtherException ''NoSuchKey'' (snd object_key))
      | Some (ErrorsJson content) \<Rightarrow> Inr content
      | Some (JobsJson content) \<Rightarrow> Inl (OtherException ''TypeError'' ''company_name''))"

text \<open>
  The event. \<open>limit_company\<close> and \<open>temp_term\<close> are \<open>None\<close> when the key is absent, the two
  flags are \<open>False\<close> then; the remaining fields are those of \<open>event["aws_config"]\<close> that the
  handler uses after the configuration has been fetched.
\<close>

record Event =
  ev_limit_company :: "string option"
  ev_temp_term :: "string option"
  ev_dont_replace_existing :: bool
  ev_dont_write_existing :: bool
  bucket_name :: string
  existing_jobs_json :: string
  errors_json :: string
  sns_topic_arn :: string

record ReturnMessage =
  rm_new_jobs :: "string option"
  rm_errors :: "string option"

record Response =
  statusCode :: nat
  body :: ReturnMessage

text \<open>
  \<open>lambda_handler\<close> from the point where the browser is started and \<open>config.py\<close> and
  \<open>scrapers.py\<close> are fetched: those steps give the \<open>browser\<close>, \<open>driver\<close> and \<open>config\<close>
  parameters. \<open>stamped\<close> is the key renaming
  \<open>f"{path}_{str(datetime.datetime.now()).replace(" ", "_")}{extension}"\<close> of
  \<open>os.path.splitext\<close>, which depends on the clock. The handler is written in the two
  blocks it has after the scrape, each returning the return message and the state of
  AWS it leaves.
\<close>

text \<open>Lines 66 to 82, the block \<open>if len(new_relevant_jobs) > 0\<close>.\<close>

definition notify_new_jobs ::
  "(string \<Rightarrow> string) \<Rightarrow> Event \<Rightarrow> 'd NewJobs \<Rightarrow> (string \<times> string list) list \<Rightarrow> Aws
     \<Rightarrow> ReturnMessage \<times> Aws" where
  "notify_new_jobs stamped event new_relevant_jobs existing_relevant_jobs aws =
     (if new_relevant_jobs \<noteq> [] then
        (let new_jobs_message = format_new_jobs_message new_relevant_jobs;
             existing_jobs_object =
               (if ev_dont_replace_existing event
                then (bucket_name event, stamped (existing_jobs_json event))
                else (bucket_name event, existing_jobs_json event));
             aws1 =
               (if \<not> ev_dont_write_existing event
                then s3_put existing_jobs_object (JobsJson existing_relevant_jobs) aws
                else aws);
             aws2 = sns_publish \<lparr>TopicArn = sns_topic_arn event, Message = new_jobs_message,
                                   Subject = ''New jobs''\<rparr> aws1
         in (\<lparr>rm_new_jobs = Some new_jobs_message, rm_errors = None\<rparr>, aws2))
      else (\<lparr>rm_new_jobs = None, rm_errors = None\<rparr>, aws))"

text \<open>
  The text of line 103:
  \<open>f"All errors:\n{"\n".join([f"{company_name}: {error}" for company_name, error in errors])}"\<close>.
\<close>

definition format_errors_message :: "(string \<times> pyexn) list \<Rightarrow> string" where
  "format_errors_message errors =
     ''All errors:'' @ [CHR 0x0A] @
     join [CHR 0x0A] (map (\<lambda>(cname, error). cname @ '': '' @ str_of_exn error) errors)"

text \<open>Lines 84 to 123, from the read of the errors object to the \<open>return\<close>.\<close>

definition track_errors ::
  "Event \<Rightarrow> (string \<times> pyexn) list \<Rightarrow> ReturnMessage \<Rightarrow> Aws \<Rightarrow> (pyexn + Response) \<times> Aws" where
  "track_errors event errors return_message aws =
     (case read_errors_json aws (bucket_name event, errors_json event) of
        Inl e \<Rightarrow> (Inl e, aws)
      | Inr existing_errors \<Rightarrow>
          (let existing_errors_company_names = set (map company_name existing_errors) in
           if errors \<noteq> [] then
             (let new_existing_errors =
                    map (\<lambda>(cname, error). \<lparr>company_name = cname, message = str_of_exn error\<rparr>)
                      errors;
                  has_new_errors =
                    list_ex (\<lambda>(cname, error). cname \<notin> existing_errors_company_names) errors;
                  errors_message = format_errors_message errors;
                  aws1 =
                    (if has_new_errors then
                       sns_publish \<lparr>TopicArn = sns_topic_arn event, Message = errors_message,
                                     Subject = ''New scrape errors''\<rparr> aws
                     else aws);
                  aws2 = s3_put (bucket_name event, errors_json event)
                           (ErrorsJson new_existing_errors) aws1
              in (Inr \<lparr>statusCode = 200,
                       body = return_message\<lparr>rm_errors := Some errors_message\<rparr>\<rparr>,
                  aws2))
           else if existing_errors_company_names \<noteq> {} then
             (Inr \<lparr>statusCode = 200, body = return_message\<rparr>,
              s3_put (bucket_name event, errors_json event) (ErrorsJson []) aws)
           else (Inr \<lparr>statusCode = 200, body = return_message\<rparr>, aws)))"

definition lambda_handler ::
  "(string \<Rightarrow> string) \<Rightarrow> 'd Browser \<Rightarrow> 'd \<Rightarrow> 'd Config \<Rightarrow> (string \<Rightarrow> string) \<Rightarrow> Event \<Rightarrow> Aws
     \<Rightarrow> (pyexn + Response) \<times> Aws" where
  "lambda_handler unicode_lower browser driver config stamped event aws =
     (case read_jobs_json aws (bucket_name event, existing_jobs_json event) of
        Inl e \<Rightarrow> (Inl e, aws)
      | Inr existing_relevant_jobs \<Rightarrow>
          (case fst (get_new_relevant_jobs unicode_lower browser driver config existing_relevant_jobs
                       (ev_limit_company event) (ev_temp_term event)) of
             Inl e \<Rightarrow> (Inl e, aws)
           | Inr (new_relevant_jobs, existing_relevant_jobs1, verify_no_jobs, errors) \<Rightarrow>
               (case notify_new_jobs stamped event new_relevant_jobs existing_relevant_jobs1 aws of
                  (return_message, aws1) \<Rightarrow> track_errors event errors return_message aws1)))"

section \<open>Notions of the specification\<close>

text \<open>
  What the code tests: \<open>phrase.lower() in text.lower()\<close>, the lowered phrase is a
  contiguous part of the lowered text.
\<close>

definition occurs_lowered :: "(string \<Rightarrow> string) \<Rightarrow> string \<Rightarrow> string \<Rightarrow> bool" where
  "occurs_lowered unicode_lower phrase text \<longleftrightarrow>
     (\<exists>before after. lower unicode_lower text = before @ lower unicode_lower phrase @ after)"






text \<open>
  The previously seen set of IDs of a company: \<open>existing_relevant_jobs[company.name]\<close>,
  with a missing company treated as the empty set.
\<close>

definition seen_ids :: "(string \<times> string list) list \<Rightarrow> string \<Rightarrow> string set" where
  "seen_ids existing_relevant_jobs k =
     (case map_of existing_relevant_jobs k of None \<Rightarrow> {} | Some ids \<Rightarrow> set ids)"

text \<open>
  The jobs reported for a company name: \<open>new_relevant_jobs[name]["jobs"]\<close>, and no job
  when the name is not a key.
\<close>

definition reported_jobs :: "'d NewJobs \<Rightarrow> string \<Rightarrow> JobPosting list" where
  "reported_jobs new_relevant_jobs k =
     (case map_of new_relevant_jobs k of None \<Rightarrow> [] | Some (company, jobs) \<Rightarrow> jobs)"

text \<open>
  What a run of the handler published: the messages that follow those published before
  it started.
\<close>

definition published_since :: "Aws \<Rightarrow> Aws \<Rightarrow> SnsMessage list" where
  "published_since before after = drop (length (sns_published before)) (sns_published after)"

text \<open>
  The errors of a run as \<open>{"company_name", "message"}\<close> records, one per error and in the
  order of the scrape.
\<close>

definition error_records :: "(string \<times> pyexn) list \<Rightarrow> StoredError list" where
  "error_records errors =
     map (\<lambda>(cname, error). \<lparr>company_name = cname, message = str_of_exn error\<rparr>) errors"

section \<open>Auxiliary functions of the proofs\<close>

text \<open>
  \<open>extend_scraped acc r\<close> puts the four lists of \<open>acc\<close> in front of those of a result
  \<open>r\<close> of the scraping loop; \<open>seen_set\<close> reads the \<open>defaultdict\<close> without storing
  anything; \<open>new_for k\<close> follows the grouping loop for the single key \<open>k\<close>.
\<close>

fun extend_scraped ::
  "'d Scraped \<Rightarrow> (pyexn + 'd Scraped) \<times> 'd \<Rightarrow> (pyexn + 'd Scraped) \<times> 'd" where
  "extend_scraped acc (Inl e, d) = (Inl e, d)"
| "extend_scraped (rj, sk, vnj, er) (Inr (rj', sk', vnj', er'), d) =
     (Inr (rj @ rj', sk @ sk', vnj @ vnj', er @ er'), d)"

definition seen_set :: "(string \<times> string set) list \<Rightarrow> string \<Rightarrow> string set" where
  "seen_set existing k = (case map_of existing k of None \<Rightarrow> {} | Some s \<Rightarrow> s)"

fun new_for :: "string \<Rightarrow> ('d Company \<times> JobPosting) list \<Rightarrow> string set \<Rightarrow> JobPosting list" where
  "new_for k [] seen = []"
| "new_for k ((company, job) # rest) seen =
     (if name company = k \<and> id' job \<notin> seen
      then job # new_for k rest (insert (id' job) seen)
      else new_for k rest seen)"

section \<open>Example inputs\<close>

text \<open>
  Concrete companies, a browser without state that shows the same page text at every
  URL, two configurations, and an event with the two S3 objects it names. The scraper
  of \<open>reposting_company\<close> lists the same job ID twice, under two titles.
\<close>

definition nurse_only :: "unit Company" where
  "nurse_only = \<lparr>name = ''Clinic'', active = True, jobs_page = Some ''https://clinic.example/jobs'',
     jobs_page_class = None, no_jobs_phrase = None, relevant_search_terms = Some [''Nurse'']\<rparr>"

definition plain_company :: "unit Company" where
  "plain_company = \<lparr>name = ''Acme'', active = True, jobs_page = Some ''https://acme.example/jobs'',
     jobs_page_class = None, no_jobs_phrase = None, relevant_search_terms = None\<rparr>"

definition static_browser :: "string \<Rightarrow> unit Browser" where
  "static_browser page_text =
     \<lparr>drv_get = (\<lambda>url d. (None, d)), drv_execute_script = (\<lambda>js d. (None, d)),
      drv_body_text = (\<lambda>d. Inr page_text), drv_close = (\<lambda>d. (None, d))\<rparr>"

definition engineer_job :: JobPosting where
  "engineer_job = \<lparr>title = ''Software Engineer'', link = Some ''https://jobs.example/1'', id' = ''1''\<rparr>"

definition reposted_job :: JobPosting where
  "reposted_job = \<lparr>title = ''Senior Software Engineer'', link = None, id' = ''1''\<rparr>"

definition cook_job :: JobPosting where
  "cook_job = \<lparr>title = ''Line Cook'', link = None, id' = ''2''\<rparr>"

definition hiring_company :: "unit Company" where
  "hiring_company = \<lparr>name = ''Initech'', active = True,
     jobs_page = Some ''https://initech.example/jobs'',
     jobs_page_class = Some (\<lambda>d. (Inr [engineer_job, cook_job], d)),
     no_jobs_phrase = None, relevant_search_terms = None\<rparr>"

definition reposting_company :: "unit Company" where
  "reposting_company = \<lparr>name = ''Hooli'', active = True,
     jobs_page = Some ''https://hooli.example/jobs'',
     jobs_page_class = Some (\<lambda>d. (Inr [engineer_job, reposted_job], d)),
     no_jobs_phrase = None, relevant_search_terms = None\<rparr>"

definition inactive_company :: "unit Company" where
  "inactive_company = \<lparr>name = ''Globex'', active = False, jobs_page = None,
     jobs_page_class = None, no_jobs_phrase = None, relevant_search_terms = None\<rparr>"

definition example_config :: "unit Config" where
  "example_config = \<lparr>companies = [hiring_company, plain_company, inactive_company],
     search_terms = [''engineer'']\<rparr>"

definition reposting_config :: "unit Config" where
  "reposting_config = \<lparr>companies = [reposting_company], search_terms = [''engineer'']\<rparr>"

definition example_event :: Event where
  "example_event = \<lparr>ev_limit_company = None, ev_temp_term = None,
     ev_dont_replace_existing = False, ev_dont_write_existing = False,
     bucket_name = ''bucket'', existing_jobs_json = ''existing.json'',
     errors_json = ''errors.json'', sns_topic_arn = ''arn:aws:sns:jobs''\<rparr>"

definition example_aws :: Aws where
  "example_aws = \<lparr>s3_objects =
       [(''bucket'', ''existing.json'') \<mapsto> JobsJson [(''Initech'', [''7'', ''3'']), (''Acme'', [])],
        (''bucket'', ''errors.json'') \<mapsto> ErrorsJson [\<lparr>company_name = ''Globex'', message = ''timeout''\<rparr>]],
     sns_published = []\<rparr>"

definition example_stamped :: "string \<Rightarrow> string" where
  "example_stamped key = key @ ''_2024-01-01_00:00:00''"

text \<open>
  Four strings that are not ASCII, in UTF-8, and what \<open>str.lower\<close> returns on them:
  \<open>alpha_sigma\<close> is the capital letters alpha, sigma and \<open>alpha_sigma_alpha\<close> the capital
  letters alpha, sigma, alpha; a capital sigma at the end of a word becomes the final
  small sigma (U+03C2), elsewhere the other small sigma (U+03C3). The two French texts
  have a capital E with acute accent (U+00C9), which becomes U+00E9. On a string without
  capital letters, such as \<open>ingenieur_term\<close>, \<open>str.lower\<close> changes nothing.
\<close>

definition alpha_sigma :: string where
  "alpha_sigma = [CHR 0xCE, CHR 0x91, CHR 0xCE, CHR 0xA3]"

definition alpha_sigma_alpha :: string where
  "alpha_sigma_alpha = [CHR 0xCE, CHR 0x91, CHR 0xCE, CHR 0xA3, CHR 0xCE, CHR 0x91]"

definition ingenieur_title :: string where
  "ingenieur_title = ''ING'' @ [CHR 0xC3, CHR 0x89] @ ''NIEUR LOGICIEL''"

definition ingenieur_term :: string where
  "ingenieur_term = ''ing'' @ [CHR 0xC3, CHR 0xA9] @ ''nieur''"

definition neant_text :: string where
  "neant_text = ''AUCUN POSTE N'' @ [CHR 0xC3, CHR 0x89] @ ''ANT''"

definition neant_phrase :: string where
  "neant_phrase = ''n'' @ [CHR 0xC3, CHR 0xA9] @ ''ant''"

definition example_unicode_lower :: "string \<Rightarrow> string" where
  "example_unicode_lower s =
     (case map_of
        [(alpha_sigma, [CHR 0xCE, CHR 0xB1, CHR 0xCF, CHR 0x82]),
         (alpha_sigma_alpha, [CHR 0xCE, CHR 0xB1, CHR 0xCF, CHR 0x83, CHR 0xCE, CHR 0xB1]),
         (ingenieur_title, ''ing'' @ [CHR 0xC3, CHR 0xA9] @ ''nieur logiciel''),
         (neant_text, ''aucun poste n'' @ [CHR 0xC3, CHR 0xA9] @ ''ant'')] s of
        Some lowered \<Rightarrow> lowered
      | None \<Rightarrow> s)"


definition neant_company :: "unit Company" where
  "neant_company = \<lparr>name = ''Neant'', active = True, jobs_page = Some ''https://neant.example/jobs'',
     jobs_page_class = None, no_jobs_phrase = Some neant_phrase, relevant_search_terms = None\<rparr>"

section \<open>The substring test\<close>

lemma starts_with_iff: "starts_with s p \<longleftrightarrow> (\<exists>after. s = p @ after)"
  by (induction s p rule: starts_with.induct) auto

lemma str_in_iff: "str_in sub s \<longleftrightarrow> (\<exists>before after. s = before @ sub @ after)"
proof (induction s)
  case Nil
  show ?case by auto
next
  case (Cons c cs)
  show ?case
  proof
    assume "str_in sub (c # cs)"
    then consider "starts_with (c # cs) sub" | "str_in sub cs" by auto
    then show "\<exists>before after. c # cs = before @ sub @ after"
    proof cases
      case 1
      then obtain after where "c # cs = sub @ after" by (auto simp: starts_with_iff)
      then have "c # cs = [] @ sub @ after" by simp
      then show ?thesis by blast
    next
      case 2
      then obtain before after where "cs = before @ sub @ after" using Cons.IH by blast
      then have "c # cs = (c # before) @ sub @ after" by simp
      then show ?thesis by blast
    qed
  next
    assume "\<exists>before after. c # cs = before @ sub @ after"
    then obtain before after where eq: "c # cs = before @ sub @ after" by blast
    show "str_in sub (c # cs)"
    proof (cases before)
      case Nil
      with eq have "starts_with (c # cs) sub" by (auto simp: starts_with_iff)
      then show ?thesis by simp
    next
      case (Cons b bs)
      with eq have "cs = bs @ sub @ after" by simp
      then have "str_in sub cs" using Cons.IH by blast
      then show ?thesis by simp
    qed
  qed
qed

section \<open>Lowering and the case of letters\<close>






lemma occurs_lowered_code:
  "occurs_lowered unicode_lower phrase text \<longleftrightarrow>
     str_in (lower unicode_lower phrase) (lower unicode_lower text)"
  by (simp add: occurs_lowered_def str_in_iff)

lemma list_ex_occurs:
  "list_ex (\<lambda>t. str_in (lower unicode_lower t) (lower unicode_lower s)) ts \<longleftrightarrow>
     (\<exists>t\<in>set ts. occurs_lowered unicode_lower t s)"
  by (simp add: list_ex_iff occurs_lowered_code)





section \<open>Relevance of a title\<close>


text \<open>
  The model follows the code on text that is not ASCII: with what \<open>str.lower\<close> returns
  on the two French strings, the title with the capital E acute is relevant for the
  term with the small one, and the text with the capital E acute holds the no-jobs
  phrase with the small one.
\<close>

lemma title_is_relevant_ingenieur:
  "title_is_relevant example_unicode_lower plain_company ingenieur_title [ingenieur_term]"
  by code_simp

lemma has_jobs_neant:
  "has_jobs example_unicode_lower (static_browser neant_text) () neant_company =
     Inr (False, SPECIFIC_NO_JOBS_PHRASE_FOUND)"
  by code_simp




text \<open>
  C9: when a company configures a non-empty \<open>relevant_search_terms\<close> list, relevance is
  decided by those terms alone (a title is relevant exactly when the lowered form of one
  of them is part of the lowered title); the \<open>search_terms\<close> argument (the global terms
  and the additional term) has no influence on the result.
\<close>

theorem company_terms_override:
  "relevant_search_terms company = Some ts \<Longrightarrow> ts \<noteq> [] \<Longrightarrow>
   (title_is_relevant unicode_lower company ttl terms \<longleftrightarrow>
      (\<exists>t\<in>set ts. occurs_lowered unicode_lower t ttl)) \<and>
   title_is_relevant unicode_lower company ttl terms =
     title_is_relevant unicode_lower company ttl other_terms"
  unfolding title_is_relevant_def list_ex_occurs
  by (cases ts) simp_all

theorem company_terms_override_witness:
  "relevant_search_terms nurse_only = Some [''Nurse''] \<and> [''Nurse''] \<noteq> [] \<and>
   \<not> title_is_relevant example_unicode_lower nurse_only ''Software Engineer'' [''engineer''] \<and>
   title_is_relevant example_unicode_lower nurse_only ''Software Engineer'' [''engineer''] =
     title_is_relevant example_unicode_lower nurse_only ''Software Engineer'' []"
proof -
  have "\<not> occurs_lowered example_unicode_lower ''Nurse'' ''Software Engineer''"
    unfolding occurs_lowered_code by code_simp
  then show ?thesis
    using company_terms_override
      [of nurse_only "[''Nurse'']" example_unicode_lower "''Software Engineer''" "[''engineer'']" "[]"]
    by (auto simp add: nurse_only_def)
qed

section \<open>"Has jobs" detection\<close>




section \<open>The scraping loop\<close>

lemma extend_scraped_twice:
  "extend_scraped (rj, sk, vnj, er) (extend_scraped (rj', sk', vnj', er') r) =
   extend_scraped (rj @ rj', sk @ sk', vnj @ vnj', er @ er') r"
proof (cases r)
  case (Pair res d)
  then show ?thesis by (cases res) auto
qed

lemma get_relevant_jobs_loop_acc:
  "get_relevant_jobs_loop unicode_lower browser limit terms cs (rj, sk, vnj, er) d =
   extend_scraped (rj, sk, vnj, er)
     (get_relevant_jobs_loop unicode_lower browser limit terms cs ([], [], [], []) d)"
proof (induction cs arbitrary: rj sk vnj er d)
  case Nil
  show ?case by simp
next
  case (Cons c cs)
  let ?loop = "get_relevant_jobs_loop unicode_lower browser limit terms"
  have step: "?loop cs (rj @ rj', sk @ sk', vnj @ vnj', er @ er') d' =
      extend_scraped (rj, sk, vnj, er) (?loop cs (rj', sk', vnj', er') d')"
    for rj' sk' vnj' er' d'
  proof -
    have "?loop cs (rj @ rj', sk @ sk', vnj @ vnj', er @ er') d' =
        extend_scraped (rj @ rj', sk @ sk', vnj @ vnj', er @ er') (?loop cs ([], [], [], []) d')"
      by (rule Cons.IH)
    also have "\<dots> = extend_scraped (rj, sk, vnj, er)
        (extend_scraped (rj', sk', vnj', er') (?loop cs ([], [], [], []) d'))"
      by (simp only: extend_scraped_twice)
    also have "\<dots> = extend_scraped (rj, sk, vnj, er) (?loop cs (rj', sk', vnj', er') d')"
      by (simp only: Cons.IH [symmetric])
    finally show ?thesis .
  qed
  obtain r d1 where r: "get_company_relevant_jobs unicode_lower browser d c terms = (r, d1)"
    by (cases "get_company_relevant_jobs unicode_lower browser d c terms")
  show ?case
  proof (cases r)
    case (Inl e)
    with r show ?thesis
      using step [of "[]" "[]" "[]" "[]" d] step [of "[]" "[]" "[]" "[(name c, e)]" d1]
        step [of "[]" "[name c]" "[]" "[]" d]
      by simp
  next
    case (Inr res)
    obtain crj status where res: "res = (crj, status)" by (cases res)
    with r Inr show ?thesis
      using step [of "[]" "[]" "[]" "[]" d] step [of "[]" "[]" "[]" "[]" d1]
        step [of "map (Pair c) crj" "[]" "[]" "[]" d1] step [of "[]" "[]" "[c]" "[]" d1]
        step [of "[]" "[name c]" "[]" "[]" d]
      by simp
  qed
qed

lemma get_relevant_jobs_loop_append:
  "get_relevant_jobs_loop unicode_lower browser limit terms (cs1 @ cs2) acc d =
     (case get_relevant_jobs_loop unicode_lower browser limit terms cs1 acc d of
        (Inl e, d') \<Rightarrow> (Inl e, d')
      | (Inr acc', d') \<Rightarrow> get_relevant_jobs_loop unicode_lower browser limit terms cs2 acc' d')"
proof (induction cs1 arbitrary: acc d)
  case Nil
  show ?case by simp
next
  case (Cons c cs1)
  obtain rj sk vnj er where acc: "acc = (rj, sk, vnj, er)" by (cases acc)
  show ?case
    unfolding acc
    by (simp add: Cons.IH split: prod.splits sum.splits)
qed

text \<open>
  The runs of the examples, evaluated once.
\<close>

lemma example_run:
  "get_relevant_jobs example_unicode_lower (static_browser ''Open roles'') () example_config None None =
     (Inr ([(hiring_company, engineer_job)], [''Globex''], [],
           [(''Acme'', Exception ''Scrape not implemented'')]), ())"
  by code_simp

lemma reposting_run:
  "get_relevant_jobs example_unicode_lower (static_browser ''Open roles'') () reposting_config None None =
     (Inr ([(reposting_company, engineer_job), (reposting_company, reposted_job)], [], [], []), ())"
  by code_simp

lemma example_diff:
  "get_new_relevant_jobs example_unicode_lower (static_browser ''Open roles'') () example_config
       [(''Initech'', [''7'', ''3'']), (''Acme'', [])] None None =
     (Inr ([(''Initech'', (hiring_company, [engineer_job]))],
           [(''Initech'', [''1'', ''3'', ''7'']), (''Acme'', [])], [],
           [(''Acme'', Exception ''Scrape not implemented'')]), ())"
  by code_simp

lemma reposting_diff:
  "get_new_relevant_jobs example_unicode_lower (static_browser ''Open roles'') () reposting_config [] None None =
     (Inr ([(''Hooli'', (reposting_company, [engineer_job]))], [(''Hooli'', [''1''])], [], []), ())"
  by code_simp

text \<open>
  C5: an exception that \<open>get_company_relevant_jobs\<close> raises for an active company is caught
  and recorded as the pair of the company's name and the exception, at its place in
  \<open>errors\<close>. The loop goes on with the remaining companies from the browser state the
  failed attempt left; what the companies before and after it contribute is unchanged,
  and the failing company adds nothing to \<open>relevant_jobs\<close>, \<open>skipped_companies\<close> or
  \<open>verify_no_jobs\<close>. (The \<open>assert company.jobs_page\<close> stands before the \<open>try\<close>; the theorem
  is about a company that passes it.)
\<close>

theorem scrape_error_is_recorded:
  assumes "companies config = before @ company # after"
    and "\<not> not_in_limit unicode_lower limit_company company" and "active company"
    and "truthy (jobs_page company)"
    and "get_relevant_jobs_loop unicode_lower browser limit_company
           (effective_search_terms config additional) before ([], [], [], []) d0 =
         (Inr (rj1, sk1, vnj1, er1), d1)"
    and "get_company_relevant_jobs unicode_lower browser d1 company
           (effective_search_terms config additional) = (Inl e, d2)"
    and "get_relevant_jobs_loop unicode_lower browser limit_company
           (effective_search_terms config additional) after ([], [], [], []) d2 =
         (Inr (rj2, sk2, vnj2, er2), d3)"
    and "drv_close browser d3 = (None, d4)"
  shows "get_relevant_jobs unicode_lower browser d0 config limit_company additional =
         (Inr (rj1 @ rj2, sk1 @ sk2, vnj1 @ vnj2, er1 @ (name company, e) # er2), d4)"
proof -
  let ?loop = "get_relevant_jobs_loop unicode_lower browser limit_company (effective_search_terms config additional)"
  have "?loop (company # after) (rj1, sk1, vnj1, er1) d1 =
      ?loop after (rj1, sk1, vnj1, er1 @ [(name company, e)]) d2"
    using assms(2-4,6) by simp
  also have "\<dots> = (Inr (rj1 @ rj2, sk1 @ sk2, vnj1 @ vnj2, er1 @ (name company, e) # er2), d3)"
    by (subst get_relevant_jobs_loop_acc) (simp add: assms(7))
  finally have "?loop (before @ company # after) ([], [], [], []) d0 =
      (Inr (rj1 @ rj2, sk1 @ sk2, vnj1 @ vnj2, er1 @ (name company, e) # er2), d3)"
    by (simp add: get_relevant_jobs_loop_append assms(5))
  then show ?thesis
    by (simp add: get_relevant_jobs_def assms(1,8))
qed

theorem scrape_error_is_recorded_witness:
  "get_company_relevant_jobs example_unicode_lower (static_browser ''Open roles'') () plain_company [''engineer''] =
     (Inl (Exception ''Scrape not implemented''), ()) \<and>
   get_relevant_jobs example_unicode_lower (static_browser ''Open roles'') () example_config None None =
     (Inr ([(hiring_company, engineer_job)], [''Globex''], [],
           [(''Acme'', Exception ''Scrape not implemented'')]), ())"
proof -
  have c: "companies example_config = [hiring_company] @ plain_company # [inactive_company]"
    by (simp add: example_config_def)
  have l: "\<not> not_in_limit example_unicode_lower None plain_company" by simp
  have a: "active plain_company" by (simp add: plain_company_def)
  have j: "truthy (jobs_page plain_company)" by (simp add: plain_company_def)
  have t: "effective_search_terms example_config None = [''engineer'']"
    by (simp add: effective_search_terms_def example_config_def)
  have b: "get_relevant_jobs_loop example_unicode_lower (static_browser ''Open roles'') None
        (effective_search_terms example_config None) [hiring_company] ([], [], [], []) () =
      (Inr ([(hiring_company, engineer_job)], [], [], []), ())"
    by code_simp
  have f: "get_company_relevant_jobs example_unicode_lower (static_browser ''Open roles'') () plain_company
        (effective_search_terms example_config None) =
      (Inl (Exception ''Scrape not implemented''), ())"
    by code_simp
  have r: "get_relevant_jobs_loop example_unicode_lower (static_browser ''Open roles'') None
        (effective_search_terms example_config None) [inactive_company] ([], [], [], []) () =
      (Inr ([], [''Globex''], [], []), ())"
    by code_simp
  have cl: "drv_close (static_browser ''Open roles'') () = (None, ())"
    by (simp add: static_browser_def)
  show ?thesis
    using scrape_error_is_recorded [OF c l a j b f r cl] f
    by (simp add: t plain_company_def)
qed

section \<open>The diff against the known IDs\<close>

lemma map_of_defaultdict_get:
  "map_of (snd (defaultdict_get ex k)) = (map_of ex)(k \<mapsto> seen_set ex k)"
  by (auto simp: defaultdict_get_def seen_set_def update_conv' split: option.splits)

lemma fst_defaultdict_get: "fst (defaultdict_get ex k) = seen_set ex k"
  by (simp add: defaultdict_get_def seen_set_def split: option.splits)

lemma seen_set_update:
  "seen_set (AList.update k s ex) k' = (if k' = k then s else seen_set ex k')"
  by (simp add: seen_set_def update_conv')

lemma seen_set_defaultdict_get:
  "seen_set (snd (defaultdict_get ex k)) k' = seen_set ex k'"
  by (simp add: seen_set_def map_of_defaultdict_get)

lemma reported_jobs_update:
  "reported_jobs (AList.update k (c, js) new) k' = (if k' = k then js else reported_jobs new k')"
  by (simp add: reported_jobs_def update_conv')

lemma reported_jobs_add:
  "reported_jobs
     (case map_of new k of
        Some (first_company, jobs) \<Rightarrow> AList.update k (first_company, jobs @ [job]) new
      | None \<Rightarrow> AList.update k (company, [job]) new) k' =
   (if k' = k then reported_jobs new k @ [job] else reported_jobs new k')"
  by (cases "map_of new k") (auto simp: reported_jobs_update, auto simp: reported_jobs_def)

lemma group_new_jobs_step:
  "group_new_jobs ((company, job) # rest) new ex =
     (if id' job \<notin> seen_set ex (name company) then
        group_new_jobs rest
          (case map_of new (name company) of
             Some (first_company, jobs) \<Rightarrow> AList.update (name company) (first_company, jobs @ [job]) new
           | None \<Rightarrow> AList.update (name company) (company, [job]) new)
          (AList.update (name company) (insert (id' job) (seen_set ex (name company)))
             (snd (defaultdict_get ex (name company))))
      else group_new_jobs rest new (snd (defaultdict_get ex (name company))))"
  using fst_defaultdict_get [of ex "name company"]
  by (cases "defaultdict_get ex (name company)") simp

lemma reported_jobs_group_new_jobs:
  "reported_jobs (fst (group_new_jobs rj new ex)) k =
   reported_jobs new k @ new_for k rj (seen_set ex k)"
proof (induction rj arbitrary: new ex)
  case Nil
  show ?case by simp
next
  case (Cons p rj)
  obtain company job where p: "p = (company, job)" by (cases p)
  show ?case
    unfolding p group_new_jobs_step
    by (simp add: Cons.IH reported_jobs_add seen_set_update seen_set_defaultdict_get)
qed

lemma seen_set_group_new_jobs:
  "seen_set (snd (group_new_jobs rj new ex)) k =
   seen_set ex k \<union> {id' job |company job. (company, job) \<in> set rj \<and> name company = k}"
proof (induction rj arbitrary: new ex)
  case Nil
  show ?case by simp
next
  case (Cons p rj)
  obtain company job where p: "p = (company, job)" by (cases p)
  show ?case
    unfolding p group_new_jobs_step
    by (auto simp: Cons.IH seen_set_update seen_set_defaultdict_get)
qed

lemma keys_defaultdict_get:
  "k \<in> fst ` set ex \<Longrightarrow> k \<in> fst ` set (snd (defaultdict_get ex k'))"
  by (cases "map_of ex k'") (simp_all add: defaultdict_get_def dom_update)

lemma keys_group_new_jobs:
  "k \<in> fst ` set ex \<Longrightarrow> k \<in> fst ` set (snd (group_new_jobs rj new ex))"
proof (induction rj arbitrary: new ex)
  case Nil
  then show ?case by simp
next
  case (Cons p rj)
  obtain company job where p: "p = (company, job)" by (cases p)
  have d: "k \<in> fst ` set (snd (defaultdict_get ex (name company)))"
    using Cons.prems by (rule keys_defaultdict_get)
  show ?case
  proof (cases "id' job \<in> seen_set ex (name company)")
    case True
    then show ?thesis
      unfolding p group_new_jobs_step using Cons.IH [OF d] by simp
  next
    case False
    have "k \<in> fst ` set (AList.update (name company)
              (insert (id' job) (seen_set ex (name company)))
              (snd (defaultdict_get ex (name company))))"
      using d by (simp add: dom_update)
    from Cons.IH [OF this] False show ?thesis
      unfolding p group_new_jobs_step by simp
  qed
qed

lemma finite_update:
  "\<forall>(k, s) \<in> set al. finite s \<Longrightarrow> finite s' \<Longrightarrow>
   \<forall>(k, s) \<in> set (AList.update k' s' al). finite (s :: string set)"
  by (induction al) auto

lemma finite_defaultdict_get:
  "\<forall>(k, s) \<in> set ex. finite s \<Longrightarrow> \<forall>(k, s) \<in> set (snd (defaultdict_get ex k')). finite s"
proof (cases "map_of ex k'")
  case None
  assume "\<forall>(k, s) \<in> set ex. finite s"
  then have "\<forall>(k, s) \<in> set (AList.update k' {} ex). finite s"
    by (rule finite_update) simp
  with None show ?thesis by (simp add: defaultdict_get_def)
next
  case (Some s)
  assume "\<forall>(k, s) \<in> set ex. finite s"
  with Some show ?thesis by (simp add: defaultdict_get_def)
qed

lemma finite_seen_set: "\<forall>(k, s) \<in> set ex. finite s \<Longrightarrow> finite (seen_set ex k)"
  by (auto simp: seen_set_def split: option.splits dest!: map_of_SomeD)

lemma finite_group_new_jobs:
  "\<forall>(k, s) \<in> set ex. finite s \<Longrightarrow> \<forall>(k, s) \<in> set (snd (group_new_jobs rj new ex)). finite s"
proof (induction rj arbitrary: new ex)
  case Nil
  then show ?case by simp
next
  case (Cons p rj)
  obtain company job where p: "p = (company, job)" by (cases p)
  have d: "\<forall>(k, s) \<in> set (snd (defaultdict_get ex (name company))). finite s"
    using Cons.prems by (rule finite_defaultdict_get)
  show ?case
  proof (cases "id' job \<in> seen_set ex (name company)")
    case True
    then show ?thesis
      unfolding p group_new_jobs_step using Cons.IH [OF d] by simp
  next
    case False
    have "\<forall>(k, s) \<in> set (AList.update (name company)
              (insert (id' job) (seen_set ex (name company)))
              (snd (defaultdict_get ex (name company)))). finite s"
      using d finite_seen_set [OF Cons.prems, of "name company"] by (intro finite_update) simp_all
    from Cons.IH [OF this] False show ?thesis
      unfolding p group_new_jobs_step by simp
  qed
qed

lemma distinct_keys_group_new_jobs:
  "distinct (map fst new) \<Longrightarrow> distinct (map fst (fst (group_new_jobs rj new ex)))"
proof (induction rj arbitrary: new ex)
  case Nil
  then show ?case by simp
next
  case (Cons p rj)
  obtain company job where p: "p = (company, job)" by (cases p)
  have "distinct (map fst
      (case map_of new (name company) of
         Some (first_company, jobs) \<Rightarrow> AList.update (name company) (first_company, jobs @ [job]) new
       | None \<Rightarrow> AList.update (name company) (company, [job]) new))"
    using Cons.prems by (cases "map_of new (name company)") (auto simp: distinct_update)
  then show ?case
    unfolding p group_new_jobs_step using Cons.prems by (simp add: Cons.IH)
qed

lemma new_for_sound:
  "job \<in> set (new_for k rj seen) \<Longrightarrow>
   id' job \<notin> seen \<and> (\<exists>company. (company, job) \<in> set rj \<and> name company = k)"
  by (induction k rj seen rule: new_for.induct) (auto split: if_splits)

lemma new_for_complete:
  "(company, job) \<in> set rj \<Longrightarrow> id' job \<notin> seen \<Longrightarrow>
   id' job \<in> id' ` set (new_for (name company) rj seen)"
proof (induction "name company" rj seen rule: new_for.induct)
  case (1 seen)
  then show ?case by simp
next
  case (2 c j rest seen)
  then show ?case by (cases "id' job = id' j") (auto split: if_splits)
qed

lemma new_for_distinct: "distinct (map id' (new_for k rj seen))"
  by (induction k rj seen rule: new_for.induct) (auto dest: new_for_sound)

lemma new_for_first:
  "job \<in> set (new_for k rj seen) \<Longrightarrow>
   \<exists>company. find (\<lambda>(c, j). name c = k \<and> id' j = id' job) rj = Some (company, job)"
  by (induction k rj seen rule: new_for.induct) (auto split: if_splits dest: new_for_sound)

lemma seen_set_of_input:
  "seen_set (map (\<lambda>(key, val). (key, set val)) existing) k = seen_ids existing k"
  by (simp add: seen_set_def seen_ids_def map_of_map split: option.splits)

lemma get_new_relevant_jobs_Inr:
  assumes "get_new_relevant_jobs unicode_lower browser driver config existing limit additional =
             (Inr (new, existing1, verify1, errors1), d2)"
  obtains rj sk where
    "get_relevant_jobs unicode_lower browser driver config limit additional = (Inr (rj, sk, verify1, errors1), d2)"
    "new = fst (group_new_jobs rj [] (map (\<lambda>(key, val). (key, set val)) existing))"
    "existing1 = map (\<lambda>(key, val). (key, sorted_list_of_set val))
        (snd (group_new_jobs rj [] (map (\<lambda>(key, val). (key, set val)) existing)))"
  using assms
  by (auto simp: get_new_relevant_jobs_def split: prod.splits sum.splits)

lemma reported_jobs_get_new_relevant_jobs:
  assumes "get_new_relevant_jobs unicode_lower browser driver config existing limit additional =
             (Inr (new, existing1, verify1, errors1), d2)"
    and "get_relevant_jobs unicode_lower browser driver config limit additional =
             (Inr (rj, sk, verify, errors), d1)"
  shows "reported_jobs new k = new_for k rj (seen_ids existing k)"
proof -
  from assms(1) obtain rj' sk' where
    "get_relevant_jobs unicode_lower browser driver config limit additional = (Inr (rj', sk', verify1, errors1), d2)"
    and new: "new = fst (group_new_jobs rj' [] (map (\<lambda>(key, val). (key, set val)) existing))"
    by (rule get_new_relevant_jobs_Inr)
  with assms(2) have "rj' = rj" by simp
  with new show ?thesis
    by (simp add: reported_jobs_group_new_jobs seen_set_of_input) (simp add: reported_jobs_def)
qed

text \<open>
  C1, as the code has it: for every scraped relevant job, a job with its ID is reported
  under the company's name exactly when the ID is not in the previously seen set of that
  name; and when no other scraped job of that company name carries the same ID with
  another content, the job itself is reported exactly when its ID is not in that set.
\<close>

theorem new_job_reported_iff_unseen:
  assumes "get_relevant_jobs unicode_lower browser driver config limit_company additional =
             (Inr (relevant_jobs, skipped, verify, errors), d1)"
    and "get_new_relevant_jobs unicode_lower browser driver config existing limit_company additional =
             (Inr (new_relevant_jobs, existing1, verify1, errors1), d2)"
    and "(company, job) \<in> set relevant_jobs"
  shows "(id' job \<in> id' ` set (reported_jobs new_relevant_jobs (name company)) \<longleftrightarrow>
            id' job \<notin> seen_ids existing (name company)) \<and>
         ((\<forall>(c, j) \<in> set relevant_jobs. name c = name company \<and> id' j = id' job \<longrightarrow> j = job) \<longrightarrow>
          (job \<in> set (reported_jobs new_relevant_jobs (name company)) \<longleftrightarrow>
             id' job \<notin> seen_ids existing (name company)))"
proof -
  let ?k = "name company"
  let ?reported = "reported_jobs new_relevant_jobs ?k"
  have rep: "?reported = new_for ?k relevant_jobs (seen_ids existing ?k)"
    using assms(2,1) by (rule reported_jobs_get_new_relevant_jobs)
  have only_if: "id' j \<notin> seen_ids existing ?k" if "j \<in> set ?reported" for j
    using that new_for_sound [of j ?k relevant_jobs] by (simp add: rep)
  have id_level: "id' job \<in> id' ` set ?reported \<longleftrightarrow> id' job \<notin> seen_ids existing ?k"
  proof
    assume "id' job \<in> id' ` set ?reported"
    then obtain j where "j \<in> set ?reported" "id' j = id' job" by auto
    with only_if [of j] show "id' job \<notin> seen_ids existing ?k" by simp
  next
    assume "id' job \<notin> seen_ids existing ?k"
    with assms(3) show "id' job \<in> id' ` set ?reported"
      unfolding rep by (rule new_for_complete)
  qed
  have job_level: "job \<in> set ?reported \<longleftrightarrow> id' job \<notin> seen_ids existing ?k"
    if unique: "\<forall>(c, j) \<in> set relevant_jobs. name c = ?k \<and> id' j = id' job \<longrightarrow> j = job"
  proof
    assume "job \<in> set ?reported"
    then show "id' job \<notin> seen_ids existing ?k" by (rule only_if)
  next
    assume "id' job \<notin> seen_ids existing ?k"
    with id_level obtain j where j: "j \<in> set ?reported" "id' j = id' job" by auto
    from j(1) obtain c where "(c, j) \<in> set relevant_jobs" "name c = ?k"
      using new_for_sound [of j ?k relevant_jobs] by (auto simp: rep)
    with unique j(2) have "j = job" by auto
    with j(1) show "job \<in> set ?reported" by simp
  qed
  from id_level job_level show ?thesis by blast
qed

theorem new_job_reported_iff_unseen_witness:
  "(hiring_company, engineer_job) \<in> set [(hiring_company, engineer_job)] \<and>
   id' engineer_job \<notin> seen_ids [(''Initech'', [''7'', ''3'']), (''Acme'', [])] (name hiring_company) \<and>
   engineer_job \<in> set (reported_jobs [(''Initech'', (hiring_company, [engineer_job]))]
                          (name hiring_company))"
proof -
  have unseen: "id' engineer_job \<notin>
      seen_ids [(''Initech'', [''7'', ''3'']), (''Acme'', [])] (name hiring_company)"
    by (simp add: seen_ids_def hiring_company_def engineer_job_def)
  show ?thesis
    using new_job_reported_iff_unseen [OF example_run example_diff, of hiring_company engineer_job]
      unseen
    by simp
qed

text \<open>
  C1 as stated fails when a scrape lists one ID twice: the second job of
  \<open>reposting_company\<close> is a scraped relevant job whose ID was never seen, and it is not
  among the reported jobs, because the first job has put the ID into the seen set.
\<close>

theorem new_job_reported_counterexample:
  "get_relevant_jobs example_unicode_lower (static_browser ''Open roles'') () reposting_config None None =
     (Inr ([(reposting_company, engineer_job), (reposting_company, reposted_job)], [], [], []), ()) \<and>
   get_new_relevant_jobs example_unicode_lower (static_browser ''Open roles'') () reposting_config [] None None =
     (Inr ([(''Hooli'', (reposting_company, [engineer_job]))], [(''Hooli'', [''1''])], [], []), ()) \<and>
   id' reposted_job \<notin> seen_ids [] (name reposting_company) \<and>
   reposted_job \<notin> set (reported_jobs [(''Hooli'', (reposting_company, [engineer_job]))]
                           (name reposting_company))"
proof -
  have "id' reposted_job \<notin> seen_ids [] (name reposting_company)"
    by (simp add: seen_ids_def)
  moreover have "reposted_job \<notin> set (reported_jobs [(''Hooli'', (reposting_company, [engineer_job]))]
                           (name reposting_company))"
    by (simp add: reported_jobs_def reposting_company_def reposted_job_def engineer_job_def)
  ultimately show ?thesis
    using reposting_run reposting_diff by blast
qed

text \<open>
  C10: in the result of one run the keys of \<open>new_relevant_jobs\<close> are distinct and the jobs
  reported under a key have distinct IDs, so a pair of company name and job ID is
  reported at most once; and each reported job is the first scraped job of that company
  name with its ID.
\<close>

theorem job_id_reported_once:
  assumes "get_relevant_jobs unicode_lower browser driver config limit_company additional =
             (Inr (relevant_jobs, skipped, verify, errors), d1)"
    and "get_new_relevant_jobs unicode_lower browser driver config existing limit_company additional =
             (Inr (new_relevant_jobs, existing1, verify1, errors1), d2)"
  shows "distinct (map fst new_relevant_jobs) \<and>
         distinct (map id' (reported_jobs new_relevant_jobs k)) \<and>
         (\<forall>job \<in> set (reported_jobs new_relevant_jobs k).
            \<exists>company. find (\<lambda>(c, j). name c = k \<and> id' j = id' job) relevant_jobs
                         = Some (company, job))"
proof -
  have rep: "reported_jobs new_relevant_jobs k = new_for k relevant_jobs (seen_ids existing k)"
    using assms(2,1) by (rule reported_jobs_get_new_relevant_jobs)
  from assms(2) obtain rj sk where
    "new_relevant_jobs = fst (group_new_jobs rj [] (map (\<lambda>(key, val). (key, set val)) existing))"
    by (rule get_new_relevant_jobs_Inr)
  then have "distinct (map fst new_relevant_jobs)"
    by (simp add: distinct_keys_group_new_jobs)
  moreover have "distinct (map id' (reported_jobs new_relevant_jobs k))"
    unfolding rep by (rule new_for_distinct)
  moreover have "\<forall>job \<in> set (reported_jobs new_relevant_jobs k).
      \<exists>company. find (\<lambda>(c, j). name c = k \<and> id' j = id' job) relevant_jobs = Some (company, job)"
    unfolding rep by (blast dest: new_for_first)
  ultimately show ?thesis by blast
qed

theorem job_id_reported_once_witness:
  "reported_jobs [(''Hooli'', (reposting_company, [engineer_job]))] ''Hooli'' = [engineer_job] \<and>
   distinct (map id' (reported_jobs [(''Hooli'', (reposting_company, [engineer_job]))] ''Hooli'')) \<and>
   find (\<lambda>(c, j). name c = ''Hooli'' \<and> id' j = id' engineer_job)
     [(reposting_company, engineer_job), (reposting_company, reposted_job)]
     = Some (reposting_company, engineer_job)"
proof -
  have rep: "reported_jobs [(''Hooli'', (reposting_company, [engineer_job]))] ''Hooli'' = [engineer_job]"
    by (simp add: reported_jobs_def)
  show ?thesis
    using job_id_reported_once [OF reposting_run reposting_diff, of "''Hooli''"] rep
    by (simp add: reposting_company_def)
qed

text \<open>
  C8: every company key of the input \<open>existing_relevant_jobs\<close> is a key of the returned
  map and every job ID listed under it is still listed there; each list of the returned
  map is sorted and free of duplicates.
\<close>

theorem seen_ids_only_grow:
  assumes "get_new_relevant_jobs unicode_lower browser driver config existing limit_company additional =
             (Inr (new_relevant_jobs, existing1, verify1, errors1), d2)"
  shows "(\<forall>k ids. map_of existing k = Some ids \<longrightarrow>
            (\<exists>ids1. map_of existing1 k = Some ids1 \<and> set ids \<subseteq> set ids1)) \<and>
         (\<forall>(k, ids1) \<in> set existing1. sorted ids1 \<and> distinct ids1)"
proof -
  from assms obtain rj sk where
    "get_relevant_jobs unicode_lower browser driver config limit_company additional =
       (Inr (rj, sk, verify1, errors1), d2)"
    and "new_relevant_jobs = fst (group_new_jobs rj [] (map (\<lambda>(key, val). (key, set val)) existing))"
    and ex1: "existing1 = map (\<lambda>(key, val). (key, sorted_list_of_set val))
        (snd (group_new_jobs rj [] (map (\<lambda>(key, val). (key, set val)) existing)))"
    by (rule get_new_relevant_jobs_Inr)
  define ex0 where "ex0 = map (\<lambda>(key, val). (key, set val)) existing"
  define ex where "ex = snd (group_new_jobs rj [] ex0)"
  have existing1: "existing1 = map (\<lambda>(key, val). (key, sorted_list_of_set val)) ex"
    by (simp add: ex1 ex_def ex0_def)
  have sorted_distinct: "\<forall>(k, ids1) \<in> set existing1. sorted ids1 \<and> distinct ids1"
    unfolding existing1 by auto
  have grows: "\<exists>ids1. map_of existing1 k = Some ids1 \<and> set ids \<subseteq> set ids1"
    if "map_of existing k = Some ids" for k ids
  proof -
    from that have in0: "map_of ex0 k = Some (set ids)"
      by (simp add: ex0_def map_of_map)
    then have "k \<in> fst ` set ex0"
      by (metis domI dom_map_of_conv_image_fst)
    then have "k \<in> fst ` set ex"
      unfolding ex_def by (rule keys_group_new_jobs)
    then obtain s where s: "map_of ex k = Some s"
      by (metis domD dom_map_of_conv_image_fst)
    have "\<forall>(k, s) \<in> set ex0. finite s" by (auto simp: ex0_def)
    then have "\<forall>(k, s) \<in> set ex. finite s"
      unfolding ex_def by (rule finite_group_new_jobs)
    with s have fin: "finite s" by (auto dest!: map_of_SomeD)
    have "seen_set ex0 k \<subseteq> seen_set ex k"
      by (simp add: ex_def seen_set_group_new_jobs)
    with in0 s have sub: "set ids \<subseteq> s" by (simp add: seen_set_def)
    have "map_of existing1 k = Some (sorted_list_of_set s)"
      unfolding existing1 using s by (simp add: map_of_map)
    with fin sub show ?thesis by simp
  qed
  from grows sorted_distinct show ?thesis by blast
qed

theorem seen_ids_only_grow_witness:
  "map_of [(''Initech'', [''7'', ''3'']), (''Acme'', [])] ''Initech'' = Some [''7'', ''3''] \<and>
   map_of [(''Initech'', [''1'', ''3'', ''7'']), (''Acme'', [])] ''Initech'' = Some [''1'', ''3'', ''7''] \<and>
   set [''7'', ''3''] \<subseteq> set [''1'', ''3'', ''7''] \<and>
   sorted [''1'', ''3'', ''7''] \<and> distinct [''1'', ''3'', ''7'']"
  using seen_ids_only_grow [OF example_diff] by auto

section \<open>Notifications and stored errors\<close>

lemma sns_published_s3_put: "sns_published (s3_put k v aws) = sns_published aws"
  by (simp add: s3_put_def)

lemma sns_published_sns_publish:
  "sns_published (sns_publish m aws) = sns_published aws @ [m]"
  by (simp add: sns_publish_def)

lemma s3_objects_sns_publish: "s3_objects (sns_publish m aws) = s3_objects aws"
  by (simp add: sns_publish_def)

lemma s3_objects_s3_put: "s3_objects (s3_put k v aws) = (s3_objects aws)(k \<mapsto> v)"
  by (simp add: s3_put_def)

lemma read_errors_json_Inr:
  "read_errors_json aws k = Inr stored \<longleftrightarrow> s3_objects aws k = Some (ErrorsJson stored)"
  by (auto simp: read_errors_json_def split: option.splits S3Body.splits)

lemma list_ex_new_errors:
  "list_ex (\<lambda>(cname, error). cname \<notin> names) errors \<longleftrightarrow> (\<exists>(cname, error) \<in> set errors. cname \<notin> names)"
  by (simp add: list_ex_iff)

lemma sns_published_notify_new_jobs:
  "sns_published (snd (notify_new_jobs stamped event new existing1 aws)) =
     sns_published aws @
     (if new \<noteq> []
      then [\<lparr>TopicArn = sns_topic_arn event, Message = format_new_jobs_message new,
              Subject = ''New jobs''\<rparr>]
      else [])"
  by (simp add: notify_new_jobs_def Let_def sns_published_s3_put sns_published_sns_publish)

lemma s3_objects_notify_new_jobs:
  "s3_objects (snd (notify_new_jobs stamped event new existing1 aws)) k = s3_objects aws k \<or>
   s3_objects (snd (notify_new_jobs stamped event new existing1 aws)) k = Some (JobsJson existing1)"
  by (simp add: notify_new_jobs_def Let_def s3_objects_s3_put s3_objects_sns_publish)

lemma read_errors_after_notify:
  assumes "read_errors_json (snd (notify_new_jobs stamped event new existing1 aws)) k = Inr stored"
  shows "read_errors_json aws k = Inr stored"
  using assms s3_objects_notify_new_jobs [of stamped event new existing1 aws k]
  by (auto simp: read_errors_json_Inr)

lemma sns_published_track_errors:
  "sns_published (snd (track_errors event errors rm aws)) =
     sns_published aws @ filter (\<lambda>m. Subject m = ''New scrape errors'')
       (drop (length (sns_published aws)) (sns_published (snd (track_errors event errors rm aws))))"
  by (simp add: track_errors_def Let_def sns_published_s3_put sns_published_sns_publish
      split: sum.splits)

lemma track_errors_Inr:
  assumes "fst (track_errors event errors rm aws) = Inr response"
  obtains stored where "read_errors_json aws (bucket_name event, errors_json event) = Inr stored"
  using assms by (cases "read_errors_json aws (bucket_name event, errors_json event)")
    (simp_all add: track_errors_def)

lemma track_errors_published:
  assumes "read_errors_json aws (bucket_name event, errors_json event) = Inr stored"
  shows "drop (length (sns_published aws)) (sns_published (snd (track_errors event errors rm aws))) =
     (if \<exists>(cname, error) \<in> set errors. cname \<notin> company_name ` set stored
      then [\<lparr>TopicArn = sns_topic_arn event,
              Message = format_errors_message errors,
              Subject = ''New scrape errors''\<rparr>]
      else [])"
proof (cases "errors = []")
  case True
  with assms show ?thesis
    by (simp add: track_errors_def Let_def sns_published_s3_put)
next
  case False
  with assms show ?thesis
    by (simp add: track_errors_def Let_def sns_published_s3_put sns_published_sns_publish
        list_ex_new_errors)
qed

lemma track_errors_stored:
  assumes "read_errors_json aws (bucket_name event, errors_json event) = Inr stored"
  shows "s3_objects (snd (track_errors event errors rm aws)) (bucket_name event, errors_json event) =
     Some (ErrorsJson (error_records errors))"
proof (cases "errors = []")
  case True
  show ?thesis
  proof (cases "stored = []")
    case True
    from assms have "s3_objects aws (bucket_name event, errors_json event) = Some (ErrorsJson stored)"
      by (simp add: read_errors_json_Inr)
    with assms True \<open>errors = []\<close> show ?thesis
      by (simp add: track_errors_def Let_def error_records_def)
  next
    case False
    with assms \<open>errors = []\<close> show ?thesis
      by (simp add: track_errors_def Let_def error_records_def s3_objects_s3_put)
  qed
next
  case False
  with assms show ?thesis
    by (simp add: track_errors_def Let_def error_records_def s3_objects_s3_put)
qed

lemma lambda_handler_run:
  assumes "read_jobs_json aws (bucket_name event, existing_jobs_json event) = Inr existing"
    and "get_new_relevant_jobs unicode_lower browser driver config existing
           (ev_limit_company event) (ev_temp_term event) =
         (Inr (new_relevant_jobs, existing1, verify, errors), d1)"
  shows "lambda_handler unicode_lower browser driver config stamped event aws =
     track_errors event errors (fst (notify_new_jobs stamped event new_relevant_jobs existing1 aws))
       (snd (notify_new_jobs stamped event new_relevant_jobs existing1 aws))"
  using assms by (simp add: lambda_handler_def split: prod.splits)

lemma published_after_run:
  assumes "read_errors_json (snd (notify_new_jobs stamped event new existing1 aws))
             (bucket_name event, errors_json event) = Inr stored"
  shows "published_since aws
           (snd (track_errors event errors rm (snd (notify_new_jobs stamped event new existing1 aws)))) =
         (if new \<noteq> []
          then [\<lparr>TopicArn = sns_topic_arn event, Message = format_new_jobs_message new,
                  Subject = ''New jobs''\<rparr>]
          else []) @
         (if \<exists>(cname, error) \<in> set errors. cname \<notin> company_name ` set stored
          then [\<lparr>TopicArn = sns_topic_arn event, Message = format_errors_message errors,
                  Subject = ''New scrape errors''\<rparr>]
          else [])"
proof -
  let ?n = "notify_new_jobs stamped event new existing1 aws"
  let ?t = "track_errors event errors rm (snd ?n)"
  let ?ys = "if \<exists>(cname, error) \<in> set errors. cname \<notin> company_name ` set stored
          then [\<lparr>TopicArn = sns_topic_arn event, Message = format_errors_message errors,
                  Subject = ''New scrape errors''\<rparr>]
          else []"
  have d: "drop (length (sns_published (snd ?n))) (sns_published (snd ?t)) = ?ys"
    using assms by (rule track_errors_published)
  have "sns_published (snd ?t) = sns_published (snd ?n) @
      filter (\<lambda>m. Subject m = ''New scrape errors'') ?ys"
    using sns_published_track_errors [of event errors rm "snd ?n"] unfolding d .
  also have "filter (\<lambda>m. Subject m = ''New scrape errors'') ?ys = ?ys"
    by simp
  finally show ?thesis
    by (simp add: published_since_def sns_published_notify_new_jobs)
qed

lemma lambda_handler_returns:
  assumes "read_jobs_json aws (bucket_name event, existing_jobs_json event) = Inr existing"
    and "get_new_relevant_jobs unicode_lower browser driver config existing
           (ev_limit_company event) (ev_temp_term event) =
         (Inr (new_relevant_jobs, existing1, verify, errors), d1)"
    and "fst (lambda_handler unicode_lower browser driver config stamped event aws) = Inr response"
    and "read_errors_json aws (bucket_name event, errors_json event) = Inr stored_errors"
  shows "read_errors_json (snd (notify_new_jobs stamped event new_relevant_jobs existing1 aws))
           (bucket_name event, errors_json event) = Inr stored_errors"
proof -
  let ?n = "notify_new_jobs stamped event new_relevant_jobs existing1 aws"
  have run: "lambda_handler unicode_lower browser driver config stamped event aws =
      track_errors event errors (fst ?n) (snd ?n)"
    using assms(1,2) by (rule lambda_handler_run)
  with assms(3) obtain stored where
    stored: "read_errors_json (snd ?n) (bucket_name event, errors_json event) = Inr stored"
    by (auto elim: track_errors_Inr)
  then have "read_errors_json aws (bucket_name event, errors_json event) = Inr stored"
    by (rule read_errors_after_notify)
  with assms(4) have "stored = stored_errors" by simp
  with stored show ?thesis by simp
qed

text \<open>
  The run of the handler on the example event, evaluated once.
\<close>

lemma example_read:
  "read_jobs_json example_aws (bucket_name example_event, existing_jobs_json example_event) =
     Inr [(''Initech'', [''7'', ''3'']), (''Acme'', [])]"
  by code_simp

lemma example_event_diff:
  "get_new_relevant_jobs example_unicode_lower (static_browser ''Open roles'') () example_config
       [(''Initech'', [''7'', ''3'']), (''Acme'', [])]
       (ev_limit_company example_event) (ev_temp_term example_event) =
     (Inr ([(''Initech'', (hiring_company, [engineer_job]))],
           [(''Initech'', [''1'', ''3'', ''7'']), (''Acme'', [])], [],
           [(''Acme'', Exception ''Scrape not implemented'')]), ())"
  using example_diff by (simp add: example_event_def)

lemma example_stored:
  "read_errors_json example_aws (bucket_name example_event, errors_json example_event) =
     Inr [\<lparr>company_name = ''Globex'', message = ''timeout''\<rparr>]"
  by code_simp

lemma example_response:
  "fst (lambda_handler example_unicode_lower (static_browser ''Open roles'') () example_config example_stamped
          example_event example_aws) =
     Inr \<lparr>statusCode = 200,
          body = \<lparr>rm_new_jobs = Some (format_new_jobs_message
                                        [(''Initech'', (hiring_company, [engineer_job]))]),
                  rm_errors = Some (format_errors_message
                                      [(''Acme'', Exception ''Scrape not implemented'')])\<rparr>\<rparr>"
  by code_simp

text \<open>
  C2: when the known-jobs object can be read and the scrape returns, the run publishes
  one message with subject \<open>New jobs\<close>, carrying the formatted new jobs, if
  \<open>new_relevant_jobs\<close> is not empty, and no such message if it is empty.
\<close>

theorem new_jobs_notification:
  assumes "read_jobs_json aws (bucket_name event, existing_jobs_json event) = Inr existing"
    and "get_new_relevant_jobs unicode_lower browser driver config existing
           (ev_limit_company event) (ev_temp_term event) =
         (Inr (new_relevant_jobs, existing1, verify, errors), d1)"
  shows "filter (\<lambda>m. Subject m = ''New jobs'')
           (published_since aws (snd (lambda_handler unicode_lower browser driver config stamped event aws))) =
         (if new_relevant_jobs \<noteq> []
          then [\<lparr>TopicArn = sns_topic_arn event,
                  Message = format_new_jobs_message new_relevant_jobs, Subject = ''New jobs''\<rparr>]
          else [])"
proof -
  let ?n = "notify_new_jobs stamped event new_relevant_jobs existing1 aws"
  let ?t = "track_errors event errors (fst ?n) (snd ?n)"
  have run: "lambda_handler unicode_lower browser driver config stamped event aws = ?t"
    using assms by (rule lambda_handler_run)
  define rest where "rest = filter (\<lambda>m. Subject m = ''New scrape errors'')
      (drop (length (sns_published (snd ?n))) (sns_published (snd ?t)))"
  have rest: "sns_published (snd ?t) = sns_published (snd ?n) @ rest"
    unfolding rest_def by (rule sns_published_track_errors)
  have no_jobs: "filter (\<lambda>m. Subject m = ''New jobs'') rest = []"
    unfolding rest_def by (simp add: filter_empty_conv)
  show ?thesis
    unfolding run published_since_def rest sns_published_notify_new_jobs
    using no_jobs by simp
qed

theorem new_jobs_notification_witness:
  "filter (\<lambda>m. Subject m = ''New jobs'')
     (published_since example_aws
        (snd (lambda_handler example_unicode_lower (static_browser ''Open roles'') () example_config example_stamped
                example_event example_aws))) =
   [\<lparr>TopicArn = ''arn:aws:sns:jobs'',
     Message = format_new_jobs_message [(''Initech'', (hiring_company, [engineer_job]))],
     Subject = ''New jobs''\<rparr>]"
  using new_jobs_notification [OF example_read example_event_diff, of example_stamped]
  by (simp add: example_event_def)

text \<open>
  C6: when the handler returns, the run publishes one message with subject
  \<open>New scrape errors\<close> if some error of the run names a company that is absent from the
  errors stored before the run, and no such message otherwise; a run whose errors all
  come from companies of the stored set, or that has no error, sends none.
\<close>

theorem new_errors_notification:
  assumes "read_jobs_json aws (bucket_name event, existing_jobs_json event) = Inr existing"
    and "get_new_relevant_jobs unicode_lower browser driver config existing
           (ev_limit_company event) (ev_temp_term event) =
         (Inr (new_relevant_jobs, existing1, verify, errors), d1)"
    and "fst (lambda_handler unicode_lower browser driver config stamped event aws) = Inr response"
    and "read_errors_json aws (bucket_name event, errors_json event) = Inr stored_errors"
  shows "filter (\<lambda>m. Subject m = ''New scrape errors'')
           (published_since aws (snd (lambda_handler unicode_lower browser driver config stamped event aws))) =
         (if \<exists>(cname, error) \<in> set errors. cname \<notin> company_name ` set stored_errors
          then [\<lparr>TopicArn = sns_topic_arn event, Message = format_errors_message errors,
                  Subject = ''New scrape errors''\<rparr>]
          else [])"
proof -
  let ?n = "notify_new_jobs stamped event new_relevant_jobs existing1 aws"
  have run: "lambda_handler unicode_lower browser driver config stamped event aws =
      track_errors event errors (fst ?n) (snd ?n)"
    using assms(1,2) by (rule lambda_handler_run)
  have "read_errors_json (snd ?n) (bucket_name event, errors_json event) = Inr stored_errors"
    using assms by (rule lambda_handler_returns)
  then show ?thesis
    unfolding run by (simp add: published_after_run)
qed

theorem new_errors_notification_witness:
  "filter (\<lambda>m. Subject m = ''New scrape errors'')
     (published_since example_aws
        (snd (lambda_handler example_unicode_lower (static_browser ''Open roles'') () example_config example_stamped
                example_event example_aws))) =
   [\<lparr>TopicArn = ''arn:aws:sns:jobs'',
     Message = format_errors_message [(''Acme'', Exception ''Scrape not implemented'')],
     Subject = ''New scrape errors''\<rparr>]"
  using new_errors_notification
    [OF example_read example_event_diff example_response example_stored]
  by (simp add: example_event_def)

text \<open>
  C7: when the handler returns, the stored errors object holds exactly the errors of the
  run as \<open>{"company_name", "message"}\<close> records, one per error in the order of the scrape;
  so after a run without errors it holds the empty list, whatever was stored before.
\<close>

theorem stored_errors_are_current:
  assumes "read_jobs_json aws (bucket_name event, existing_jobs_json event) = Inr existing"
    and "get_new_relevant_jobs unicode_lower browser driver config existing
           (ev_limit_company event) (ev_temp_term event) =
         (Inr (new_relevant_jobs, existing1, verify, errors), d1)"
    and "fst (lambda_handler unicode_lower browser driver config stamped event aws) = Inr response"
    and "read_errors_json aws (bucket_name event, errors_json event) = Inr stored_errors"
  shows "s3_objects (snd (lambda_handler unicode_lower browser driver config stamped event aws))
           (bucket_name event, errors_json event) =
         Some (ErrorsJson (error_records errors))"
proof -
  let ?n = "notify_new_jobs stamped event new_relevant_jobs existing1 aws"
  have run: "lambda_handler unicode_lower browser driver config stamped event aws =
      track_errors event errors (fst ?n) (snd ?n)"
    using assms(1,2) by (rule lambda_handler_run)
  have "read_errors_json (snd ?n) (bucket_name event, errors_json event) = Inr stored_errors"
    using assms by (rule lambda_handler_returns)
  then show ?thesis
    unfolding run by (rule track_errors_stored)
qed

theorem stored_errors_are_current_witness:
  "s3_objects
     (snd (lambda_handler example_unicode_lower (static_browser ''Open roles'') () example_config example_stamped
             example_event example_aws))
     (''bucket'', ''errors.json'') =
   Some (ErrorsJson [\<lparr>company_name = ''Acme'', message = ''Scrape not implemented''\<rparr>])"
  using stored_errors_are_current
    [OF example_read example_event_diff example_response example_stored]
  by (simp add: example_event_def error_records_def)

end
